theory Spec2Isabelle
  imports Main
begin

section \<open>Python text and the character classes of the \<open>re\<close> module\<close>

text \<open>
  A Python \<open>str\<close> is a sequence of code points.  The model covers the code points
  0..255: a \<^typ>\<open>char\<close> is one code point and \<^const>\<open>length\<close> counts code points, as
  Python's \<open>len\<close> does.  On this range the classes \<open>\d\<close>, \<open>\s\<close>, \<open>\w\<close> of a
  \<open>str\<close> pattern and \<open>str.lower\<close> are the ones below.
\<close>

definition code :: "char \<Rightarrow> nat" where
  "code c = of_char c"

definition in_range :: "nat \<Rightarrow> nat \<Rightarrow> char \<Rightarrow> bool" where
  "in_range lo hi c = (lo \<le> code c \<and> code c \<le> hi)"

definition is_digit :: "char \<Rightarrow> bool" where
  "is_digit c = in_range 0x30 0x39 c"

definition is_upper_az :: "char \<Rightarrow> bool" where
  "is_upper_az c = in_range 0x41 0x5A c"

definition is_lower_az :: "char \<Rightarrow> bool" where
  "is_lower_az c = in_range 0x61 0x7A c"

definition is_alpha_az :: "char \<Rightarrow> bool" where
  "is_alpha_az c = (is_lower_az c \<or> is_upper_az c)"

definition is_space :: "char \<Rightarrow> bool" where
  "is_space c = (in_range 0x09 0x0D c \<or> in_range 0x1C 0x20 c \<or> code c = 0x85 \<or> code c = 0xA0)"

definition is_word :: "char \<Rightarrow> bool" where
  "is_word c = (is_digit c \<or> is_alpha_az c \<or> code c = 0x5F \<or> code c = 0xAA
      \<or> in_range 0xB2 0xB3 c \<or> code c = 0xB5 \<or> in_range 0xB9 0xBA c \<or> in_range 0xBC 0xBE c
      \<or> in_range 0xC0 0xD6 c \<or> in_range 0xD8 0xF6 c \<or> in_range 0xF8 0xFF c)"

definition py_lower :: "char \<Rightarrow> char" where
  "py_lower c = (if is_upper_az c \<or> (in_range 0xC0 0xDE c \<and> code c \<noteq> 0xD7)
                 then char_of (code c + 32) else c)"

definition py_upper :: "char \<Rightarrow> char" where
  "py_upper c = (if is_lower_az c \<or> (in_range 0xE0 0xFE c \<and> code c \<noteq> 0xF7)
                 then char_of (code c - 32) else c)"

definition lower :: "string \<Rightarrow> string" where
  "lower s = map py_lower s"

section \<open>A backtracking matcher for the constructs the pattern catalogue uses\<close>

text \<open>
  A character set \<open>[...]\<close> is \<open>Pos P\<close>, a negated one \<open>[^...]\<close> is \<open>Neg P\<close>.  Under
  \<open>re.IGNORECASE\<close> the engine lowers the members of the set and the character of the text,
  so a character matches when a member of the set has the same lower case.
\<close>

datatype cset = Pos "char \<Rightarrow> bool" | Neg "char \<Rightarrow> bool"

fun cmatch :: "bool \<Rightarrow> cset \<Rightarrow> char \<Rightarrow> bool" where
  "cmatch ic (Pos P) c = (if ic then P (py_lower c) \<or> P (py_upper c) else P c)"
| "cmatch ic (Neg P) c = (if ic then \<not> (P (py_lower c) \<or> P (py_upper c)) else \<not> P c)"

definition chr_eq :: "bool \<Rightarrow> char \<Rightarrow> char \<Rightarrow> bool" where
  "chr_eq ic l c = (if ic then py_lower l = py_lower c else l = c)"

fun lit_prefix :: "bool \<Rightarrow> string \<Rightarrow> string \<Rightarrow> bool" where
  "lit_prefix ic [] s = True"
| "lit_prefix ic (l # ls) [] = False"
| "lit_prefix ic (l # ls) (c # cs) = (chr_eq ic l c \<and> lit_prefix ic ls cs)"

text \<open>
  \<open>Rep m n cs\<close> is the greedy repetition \<open>cs{m,n}\<close> of one character set (\<open>+\<close> is
  \<open>Rep 1 None\<close>), \<open>Opt r\<close> is the greedy \<open>(?:r)?\<close>, \<open>Alt\<close> the ordered alternative and
  \<open>WordB\<close> the assertion \<open>\b\<close>.
\<close>

datatype rx =
    Eps
  | Lit string
  | Cls cset
  | Rep nat "nat option" cset
  | Seq rx rx
  | Alt rx rx
  | Opt rx
  | WordB

fun cat :: "rx list \<Rightarrow> rx" where
  "cat [] = Eps"
| "cat (r # rs) = Seq r (cat rs)"

fun alts :: "rx list \<Rightarrow> rx" where
  "alts [] = Cls (Pos (\<lambda>c. False))"
| "alts [r] = r"
| "alts (r # rs) = Alt r (alts rs)"

text \<open>\<open>\b\<close>: exactly one of the character before and the character after is a word character.\<close>

definition at_boundary :: "char option \<Rightarrow> string \<Rightarrow> bool" where
  "at_boundary p s =
     ((case p of None \<Rightarrow> False | Some c \<Rightarrow> is_word c) \<noteq> (case s of [] \<Rightarrow> False | c # _ \<Rightarrow> is_word c))"

definition prev_at :: "char option \<Rightarrow> string \<Rightarrow> nat \<Rightarrow> char option" where
  "prev_at p s n = (if n = 0 \<or> length s < n then p else Some (s ! (n - 1)))"

definition rep_max :: "bool \<Rightarrow> nat option \<Rightarrow> cset \<Rightarrow> string \<Rightarrow> nat" where
  "rep_max ic n cs s =
     (let k = length (takeWhile (cmatch ic cs) s)
      in case n of None \<Rightarrow> k | Some b \<Rightarrow> min b k)"

text \<open>
  \<open>ms ic r p s\<close>: the lengths of the prefixes of \<open>s\<close> that \<open>r\<close> matches, in the order in which
  the backtracking engine tries them; \<open>p\<close> is the character before \<open>s\<close> in the text.  The
  engine's match is the head of the list.
\<close>

fun ms :: "bool \<Rightarrow> rx \<Rightarrow> char option \<Rightarrow> string \<Rightarrow> nat list" where
  "ms ic Eps p s = [0]"
| "ms ic (Lit l) p s = (if lit_prefix ic l s then [length l] else [])"
| "ms ic (Cls cs) p s = (case s of [] \<Rightarrow> [] | c # _ \<Rightarrow> if cmatch ic cs c then [1] else [])"
| "ms ic (Rep m n cs) p s =
     (let k = rep_max ic n cs s in if m \<le> k then rev [m ..< Suc k] else [])"
| "ms ic (Seq a b) p s =
     concat (map (\<lambda>n. map (\<lambda>k. n + k) (ms ic b (prev_at p s n) (drop n s))) (ms ic a p s))"
| "ms ic (Alt a b) p s = ms ic a p s @ ms ic b p s"
| "ms ic (Opt a) p s = ms ic a p s @ [0]"
| "ms ic WordB p s = (if at_boundary p s then [0] else [])"

text \<open>
  \<open>re.findall\<close> for a pattern without capturing groups: scan from the left, take the
  engine's match at the first position that has one, continue behind it.  No pattern of the
  catalogue matches the empty string (\<open>catalogue_nonempty\<close> below), so the rule for empty
  matches is never used; an empty match is emitted and the scan moves on by one character.
\<close>

fun findall_from :: "bool \<Rightarrow> rx \<Rightarrow> char option \<Rightarrow> string \<Rightarrow> string list" where
  "findall_from ic r p [] = (case ms ic r p [] of [] \<Rightarrow> [] | n # _ \<Rightarrow> [[]])"
| "findall_from ic r p (c # cs) =
     (case ms ic r p (c # cs) of
        [] \<Rightarrow> findall_from ic r (Some c) cs
      | n # _ \<Rightarrow>
          (if n = 0 then [] # findall_from ic r (Some c) cs
           else take n (c # cs) # findall_from ic r (prev_at p (c # cs) n) (drop n (c # cs))))"

definition findall :: "bool \<Rightarrow> rx \<Rightarrow> string \<Rightarrow> string list" where
  "findall ic r text = findall_from ic r None text"

section \<open>The pattern catalogue\<close>

definition BANK_ACCOUNT_PATTERN :: rx where
  "BANK_ACCOUNT_PATTERN = cat [WordB, Rep 9 (Some 18) (Pos is_digit), WordB]"

definition upi_local_chr :: "char \<Rightarrow> bool" where
  "upi_local_chr c = (is_alpha_az c \<or> is_digit c \<or> c \<in> set ''._-'')"

definition UPI_ID_PATTERN :: rx where
  "UPI_ID_PATTERN =
     cat [WordB, Rep 1 None (Pos upi_local_chr), Lit ''@'', Rep 2 None (Pos is_alpha_az), WordB]"

definition is_6789 :: "char \<Rightarrow> bool" where
  "is_6789 c = in_range 0x36 0x39 c"

definition dash_or_space :: "char \<Rightarrow> bool" where
  "dash_or_space c = (c = CHR ''-'' \<or> is_space c)"

definition PHONE_PATTERN :: rx where
  "PHONE_PATTERN =
     cat [Opt (Alt (cat [Lit ''+91'', Opt (Cls (Pos dash_or_space))])
                   (cat [Lit ''91'', Opt (Cls (Pos dash_or_space))])),
          Cls (Pos is_6789), Rep 9 (Some 9) (Pos is_digit), WordB]"

text \<open>The characters that end a URL: \<open>\s < > " { } | \ ^ ` [ ]\<close>.\<close>

definition url_stop :: "char \<Rightarrow> bool" where
  "url_stop c = (is_space c \<or> c \<in> set [CHR ''<'', CHR ''>'', CHR 0x22, CHR ''{'', CHR ''}'',
      CHR ''|'', CHR 0x5C, CHR ''^'', CHR 0x60, CHR ''['', CHR '']''])"

definition URL_PATTERN :: rx where
  "URL_PATTERN =
     Alt (cat [Lit ''http'', Opt (Lit ''s''), Lit ''://'', Rep 1 None (Neg url_stop)])
         (cat [Lit ''www.'', Rep 1 None (Neg url_stop)])"

definition alnum_az :: "char \<Rightarrow> bool" where
  "alnum_az c = (is_alpha_az c \<or> is_digit c)"

definition SHORT_URL_PATTERN :: rx where
  "SHORT_URL_PATTERN =
     cat [WordB,
          alts [Lit ''bit.ly'', Lit ''tinyurl.com'', Lit ''goo.gl'', Lit ''t.co'', Lit ''is.gd'',
                Lit ''buff.ly'', Lit ''ow.ly'', Lit ''rebrand.ly''],
          Lit ''/'', Rep 1 None (Pos alnum_az), WordB]"

definition email_local_chr :: "char \<Rightarrow> bool" where
  "email_local_chr c = (is_alpha_az c \<or> is_digit c \<or> c \<in> set ''._%+-'')"

definition email_domain_chr :: "char \<Rightarrow> bool" where
  "email_domain_chr c = (is_alpha_az c \<or> is_digit c \<or> c \<in> set ''.-'')"

text \<open>The source writes the last set as \<open>[A-Z|a-z]\<close>: the bar is a member of it.\<close>

definition email_tld_chr :: "char \<Rightarrow> bool" where
  "email_tld_chr c = (is_alpha_az c \<or> c = CHR ''|'')"

definition EMAIL_PATTERN :: rx where
  "EMAIL_PATTERN =
     cat [WordB, Rep 1 None (Pos email_local_chr), Lit ''@'', Rep 1 None (Pos email_domain_chr),
          Lit ''.'', Rep 2 None (Pos email_tld_chr), WordB]"

definition upper_or_digit :: "char \<Rightarrow> bool" where
  "upper_or_digit c = (is_upper_az c \<or> is_digit c)"

definition IFSC_PATTERN :: rx where
  "IFSC_PATTERN =
     cat [WordB, Rep 4 (Some 4) (Pos is_upper_az), Lit ''0'', Rep 6 (Some 6) (Pos upper_or_digit),
          WordB]"

section \<open>The extraction functions\<close>

text \<open>
  \<open>list(set(xs))\<close> returns the distinct members of \<open>xs\<close> in an order that Python does not
  fix (it depends on the hashes of the strings).  Every extraction function therefore takes
  the order as a parameter \<open>so\<close>, a function from a list to a list; \<open>set_order so\<close> says what
  Python guarantees of it.
\<close>

definition set_order :: "(string list \<Rightarrow> string list) \<Rightarrow> bool" where
  "set_order so = (\<forall>xs. set (so xs) = set xs \<and> distinct (so xs))"

datatype py_error = IndexError

definition looks_like_phone :: "string \<Rightarrow> bool" where
  "looks_like_phone m = (length m = 10 \<and> (case m of [] \<Rightarrow> False | c # _ \<Rightarrow> c \<in> set ''6789''))"

definition extract_bank_accounts :: "(string list \<Rightarrow> string list) \<Rightarrow> string \<Rightarrow> string list" where
  "extract_bank_accounts so text =
     so (filter (\<lambda>m. \<not> looks_like_phone m \<and> \<not> length m < 9)
                (findall False BANK_ACCOUNT_PATTERN text))"

text \<open>\<open>str.split(sep)\<close> for a separator of one character, and \<open>xs[i]\<close>.\<close>

fun split :: "char \<Rightarrow> string \<Rightarrow> string list" where
  "split sep [] = [[]]"
| "split sep (c # cs) =
     (if c = sep then [] # split sep cs
      else (case split sep cs of [] \<Rightarrow> [[c]] | w # ws \<Rightarrow> (c # w) # ws))"

definition index :: "'a list \<Rightarrow> nat \<Rightarrow> py_error + 'a" where
  "index xs i = (if i < length xs then Inr (xs ! i) else Inl IndexError)"

definition email_domains :: "string list" where
  "email_domains = [''gmail'', ''yahoo'', ''hotmail'', ''outlook'', ''proton'', ''mail'']"

text \<open>The list comprehension of \<open>extract_upi_ids\<close>; \<open>m.split('@')[1]\<close> raises when \<open>m\<close> has no \<open>@\<close>.\<close>

fun upi_filter :: "string list \<Rightarrow> py_error + string list" where
  "upi_filter [] = Inr []"
| "upi_filter (m # rest) =
     (case index (split CHR ''@'' m) 1 of
        Inl e \<Rightarrow> Inl e
      | Inr d \<Rightarrow>
          (case upi_filter rest of
             Inl e \<Rightarrow> Inl e
           | Inr r \<Rightarrow> Inr (if lower d \<notin> set email_domains then m # r else r)))"

definition extract_upi_ids :: "(string list \<Rightarrow> string list) \<Rightarrow> string \<Rightarrow> py_error + string list" where
  "extract_upi_ids so text =
     (case upi_filter (findall True UPI_ID_PATTERN text) of
        Inl e \<Rightarrow> Inl e
      | Inr filtered \<Rightarrow> Inr (so filtered))"

text \<open>The body of the loop of \<open>extract_phone_numbers\<close>: the strings one match appends.\<close>

definition normalize_phone :: "string \<Rightarrow> string list" where
  "normalize_phone m =
     (let digits = filter (\<lambda>c. \<not> (c = CHR ''+'' \<or> is_space c \<or> c = CHR ''-'')) m;
          digits = (if take 2 digits = ''91'' \<and> length digits > 10 then drop 2 digits else digits)
      in if length digits = 10 then [digits] else [])"

definition extract_phone_numbers :: "(string list \<Rightarrow> string list) \<Rightarrow> string \<Rightarrow> string list" where
  "extract_phone_numbers so text = so (concat (map normalize_phone (findall False PHONE_PATTERN text)))"

definition extract_urls :: "(string list \<Rightarrow> string list) \<Rightarrow> string \<Rightarrow> string list" where
  "extract_urls so text = so (findall True URL_PATTERN text @ findall True SHORT_URL_PATTERN text)"

definition extract_emails :: "(string list \<Rightarrow> string list) \<Rightarrow> string \<Rightarrow> string list" where
  "extract_emails so text = so (findall True EMAIL_PATTERN text)"

definition extract_ifsc_codes :: "(string list \<Rightarrow> string list) \<Rightarrow> string \<Rightarrow> string list" where
  "extract_ifsc_codes so text = so (findall False IFSC_PATTERN text)"

text \<open>The values \<open>extract_intelligence\<close> can be handed, with Python's truth value of each.\<close>

datatype pyval = PyNone | PyBool bool | PyInt int | PyStr string | PyList "pyval list"

fun truthy :: "pyval \<Rightarrow> bool" where
  "truthy PyNone = False"
| "truthy (PyBool b) = b"
| "truthy (PyInt i) = (i \<noteq> 0)"
| "truthy (PyStr s) = (s \<noteq> [])"
| "truthy (PyList xs) = (xs \<noteq> [])"

record extraction =
  bank_accounts :: "string list"
  upi_ids :: "string list"
  phone_numbers :: "string list"
  phishing_links :: "string list"
  emails :: "string list"
  ifsc_codes :: "string list"
  has_intelligence :: bool

definition no_intelligence :: extraction where
  "no_intelligence = \<lparr>bank_accounts = [], upi_ids = [], phone_numbers = [], phishing_links = [],
     emails = [], ifsc_codes = [], has_intelligence = False\<rparr>"

fun extract_intelligence :: "(string list \<Rightarrow> string list) \<Rightarrow> pyval \<Rightarrow> py_error + extraction" where
  "extract_intelligence so (PyStr text) =
     (if \<not> truthy (PyStr text) then Inr no_intelligence
      else
        let ba = extract_bank_accounts so text in
        case extract_upi_ids so text of
          Inl e \<Rightarrow> Inl e
        | Inr up \<Rightarrow>
            let ph = extract_phone_numbers so text;
                li = extract_urls so text;
                em = extract_emails so text;
                ic = extract_ifsc_codes so text
            in Inr \<lparr>bank_accounts = ba, upi_ids = up, phone_numbers = ph, phishing_links = li,
                    emails = em, ifsc_codes = ic,
                    has_intelligence =
                      (ba \<noteq> [] \<or> up \<noteq> [] \<or> ph \<noteq> [] \<or> li \<noteq> [] \<or> em \<noteq> [] \<or> ic \<noteq> [])\<rparr>)"
| "extract_intelligence so v = Inr no_intelligence"

section \<open>The conversation record\<close>

definition SUSPICIOUS_KEYWORDS :: "string list" where
  "SUSPICIOUS_KEYWORDS =
     [''urgent'', ''verify now'', ''account blocked'', ''KYC'', ''OTP'',
      ''lottery'', ''winner'', ''prize'', ''blocked'', ''suspended'',
      ''immediately'', ''verify'', ''click here'', ''link'', ''expire'']"

definition PERSONAS :: "string list" where
  "PERSONAS = [''elderly_uncle'', ''curious_housewife'', ''naive_student'']"

definition DEFAULT_PERSONA :: string where
  "DEFAULT_PERSONA = ''elderly_uncle''"

record message =
  role :: string
  content :: string
  timestamp :: pyval

text \<open>The five lists of \<open>extracted_intelligence\<close>: the record keeps no other kind.\<close>

record intelligence =
  bankAccounts :: "string list"
  upiIds :: "string list"
  phoneNumbers :: "string list"
  phishingLinks :: "string list"
  suspiciousKeywords :: "string list"

text \<open>
  \<open>persona\<close> holds the key of the persona that \<open>PERSONAS.get\<close> resolves to.  \<open>created_at\<close>, a
  reading of the clock that no function reads again, is left out.
\<close>

record conversation_state =
  session_id :: string
  persona :: string
  messages :: "message list"
  extracted_intelligence :: intelligence
  scam_detected :: bool
  scam_type :: "string option"
  turn_count :: nat
  callback_sent :: bool
  agent_notes :: string

definition init :: "string \<Rightarrow> string \<Rightarrow> conversation_state" where
  "init sid p =
     \<lparr>session_id = sid,
      persona = (if p \<in> set PERSONAS then p else DEFAULT_PERSONA),
      messages = [],
      extracted_intelligence = \<lparr>bankAccounts = [], upiIds = [], phoneNumbers = [],
        phishingLinks = [], suspiciousKeywords = []\<rparr>,
      scam_detected = False, scam_type = None, turn_count = 0, callback_sent = False,
      agent_notes = []\<rparr>"

text \<open>
  A method either returns, or raises with the record as it has been mutated so far: the
  record is an object of the session store, and what was written to it before the exception
  stays written.
\<close>

datatype 'a outcome = Done 'a | Raised py_error 'a

text \<open>\<open>for x in new: if x not in cur: cur.append(x)\<close>\<close>

fun merge_into :: "string list \<Rightarrow> string list \<Rightarrow> string list" where
  "merge_into cur [] = cur"
| "merge_into cur (x # xs) = merge_into (if x \<notin> set cur then cur @ [x] else cur) xs"

text \<open>\<open>needle in hay\<close> on strings.\<close>

fun starts_with :: "string \<Rightarrow> string \<Rightarrow> bool" where
  "starts_with [] hay = True"
| "starts_with (n # ns) [] = False"
| "starts_with (n # ns) (h # hs) = (n = h \<and> starts_with ns hs)"

fun contains :: "string \<Rightarrow> string \<Rightarrow> bool" where
  "contains needle [] = (needle = [])"
| "contains needle (h # hs) = (starts_with needle (h # hs) \<or> contains needle hs)"

definition keywords_in :: "string \<Rightarrow> string list" where
  "keywords_in text = filter (\<lambda>keyword. contains (lower keyword) (lower text)) SUSPICIOUS_KEYWORDS"

definition extract_and_merge ::
  "(string list \<Rightarrow> string list) \<Rightarrow> conversation_state \<Rightarrow> string \<Rightarrow> conversation_state outcome" where
  "extract_and_merge so st text =
     (case extract_intelligence so (PyStr text) of
        Inl e \<Rightarrow> Raised e st
      | Inr intel \<Rightarrow>
          let ei = extracted_intelligence st in
          Done (st\<lparr>extracted_intelligence :=
            \<lparr>bankAccounts = merge_into (bankAccounts ei) (bank_accounts intel),
             upiIds = merge_into (upiIds ei) (upi_ids intel),
             phoneNumbers = merge_into (phoneNumbers ei) (phone_numbers intel),
             phishingLinks = merge_into (phishingLinks ei) (phishing_links intel),
             suspiciousKeywords = merge_into (suspiciousKeywords ei) (keywords_in text)\<rparr>\<rparr>))"

text \<open>\<open>ts\<close> is the \<open>timestamp\<close> argument, \<open>now\<close> the clock in milliseconds.\<close>

definition add_message ::
  "(string list \<Rightarrow> string list) \<Rightarrow> conversation_state \<Rightarrow> string \<Rightarrow> string \<Rightarrow> pyval \<Rightarrow> int
     \<Rightarrow> conversation_state outcome" where
  "add_message so st r c ts now =
     (let st1 = st\<lparr>messages := messages st @
                     [\<lparr>role = r, content = c, timestamp = (if truthy ts then ts else PyInt now)\<rparr>],
                   turn_count := turn_count st + 1\<rparr>
      in if r = ''scammer'' then extract_and_merge so st1 c else Done st1)"

text \<open>An entry of \<open>conversationHistory\<close>: a dictionary, \<open>None\<close> for a key it does not have.\<close>

record history_item =
  sender :: "string option"
  h_text :: "string option"
  h_timestamp :: "pyval option"

definition to_message :: "history_item \<Rightarrow> message" where
  "to_message msg =
     \<lparr>role = (case sender msg of None \<Rightarrow> ''unknown'' | Some s \<Rightarrow> s),
      content = (case h_text msg of None \<Rightarrow> [] | Some t \<Rightarrow> t),
      timestamp = (case h_timestamp msg of None \<Rightarrow> PyInt 0 | Some t \<Rightarrow> t)\<rparr>"

fun rebuild_loop ::
  "(string list \<Rightarrow> string list) \<Rightarrow> conversation_state \<Rightarrow> history_item list
     \<Rightarrow> conversation_state outcome" where
  "rebuild_loop so st [] = Done st"
| "rebuild_loop so st (msg # rest) =
     (let m = to_message msg;
          st1 = st\<lparr>messages := messages st @ [m]\<rparr>
      in if role m = ''scammer''
         then (case extract_and_merge so st1 (content m) of
                 Raised e st2 \<Rightarrow> Raised e st2
               | Done st2 \<Rightarrow> rebuild_loop so st2 rest)
         else rebuild_loop so st1 rest)"

definition rebuild_from_history ::
  "(string list \<Rightarrow> string list) \<Rightarrow> conversation_state \<Rightarrow> history_item list
     \<Rightarrow> conversation_state outcome" where
  "rebuild_from_history so st conversation_history =
     (case rebuild_loop so (st\<lparr>messages := []\<rparr>) conversation_history of
        Raised e st1 \<Rightarrow> Raised e st1
      | Done st1 \<Rightarrow> Done (st1\<lparr>turn_count := length (messages st1)\<rparr>))"

definition has_valuable_intelligence :: "conversation_state \<Rightarrow> bool" where
  "has_valuable_intelligence st =
     (length (bankAccounts (extracted_intelligence st)) > 0 \<or>
      length (upiIds (extracted_intelligence st)) > 0 \<or>
      length (phishingLinks (extracted_intelligence st)) > 0 \<or>
      length (phoneNumbers (extracted_intelligence st)) > 0)"

fun join :: "string \<Rightarrow> string list \<Rightarrow> string" where
  "join sep [] = []"
| "join sep [x] = x"
| "join sep (x # xs) = x @ sep @ join sep xs"

definition generate_agent_notes :: "conversation_state \<Rightarrow> string" where
  "generate_agent_notes st =
     (let ei = extracted_intelligence st;
          notes =
            (if suspiciousKeywords ei \<noteq> []
             then [''Used urgency tactics: '' @ join '', '' (take 5 (suspiciousKeywords ei))] else []) @
            (if upiIds ei \<noteq> [] then [''Requested UPI payment''] else []) @
            (if bankAccounts ei \<noteq> [] then [''Provided bank account details''] else []) @
            (if phishingLinks ei \<noteq> [] then [''Shared suspicious links''] else [])
      in if notes \<noteq> [] then join ''. '' notes else ''Scam conversation detected'')"

section \<open>The session store\<close>

type_synonym sessions = "string \<rightharpoonup> conversation_state"

text \<open>
  \<open>get_or_create_session\<close> returns the record of the store; the caller writes it back under
  its key, which is what mutating the object in place comes to.
\<close>

definition lookup_or_new :: "sessions \<Rightarrow> string \<Rightarrow> string \<Rightarrow> conversation_state" where
  "lookup_or_new store sid p = (case store sid of None \<Rightarrow> init sid p | Some st \<Rightarrow> st)"

definition get_or_create_session ::
  "(string list \<Rightarrow> string list) \<Rightarrow> sessions \<Rightarrow> string \<Rightarrow> string \<Rightarrow> history_item list
     \<Rightarrow> conversation_state outcome" where
  "get_or_create_session so store sid p conversation_history =
     (let session = lookup_or_new store sid p
      in if conversation_history \<noteq> [] \<and> length conversation_history > length (messages session)
         then rebuild_from_history so session conversation_history
         else Done session)"

section \<open>The collaborators and the turn\<close>

text \<open>
  What the world outside answers during one turn: the two readings of the clock, the verdict
  and the reason of the classification model (after \<open>detect_scam\<close> has validated them or
  replaced a failure by \<open>False\<close>), the reply of the text generator (\<open>None\<close> when there is no
  client or the call fails) and the answer of the reporting endpoint.
\<close>

datatype http_outcome = Status int | RequestFailed

record world =
  now1 :: int
  now2 :: int
  verdict :: "bool \<times> string"
  gemini_reply :: "string option"
  http :: http_outcome

definition detect_scam :: "world \<Rightarrow> string \<Rightarrow> bool \<times> string" where
  "detect_scam w m =
     (if m = [] \<or> filter (\<lambda>c. \<not> is_space c) m = [] then (False, ''Empty or invalid message'')
      else verdict w)"

definition fallbacks :: "string list" where
  "fallbacks =
     [''Ji ji, please tell me more about this. How do I proceed?'',
      ''Okay beta, but how will I receive the money? What details you need?'',
      ''This sounds interesting. Where should I send the payment?'',
      ''I am interested, but first tell me your bank details for verification.'',
      ''My husband is asking - please share your UPI ID so we can verify.'',
      ''Haan ji, I understand. What is the account number I should note down?'',
      ''Beta, is this genuine? Please share your contact number also.'',
      ''Ok ji, I will do the needful. Just tell me where to pay.'']"

definition get_fallback_response :: "conversation_state \<Rightarrow> string" where
  "get_fallback_response st = fallbacks ! (turn_count st mod length fallbacks)"

definition generate_contextual_response :: "world \<Rightarrow> conversation_state \<Rightarrow> string \<Rightarrow> string" where
  "generate_contextual_response w st latest_message =
     (case gemini_reply w of None \<Rightarrow> get_fallback_response st | Some r \<Rightarrow> r)"

record payload =
  sessionId :: string
  scamDetected :: bool
  totalMessagesExchanged :: nat
  extractedIntelligence :: intelligence
  agentNotes :: string

text \<open>
  \<open>send_guvi_callback\<close> returns the record, its boolean result and the payload it posted
  (\<open>None\<close> when it posts nothing).
\<close>

definition send_guvi_callback ::
  "world \<Rightarrow> conversation_state \<Rightarrow> conversation_state \<times> bool \<times> payload option" where
  "send_guvi_callback w st =
     (if callback_sent st then (st, True, None)
      else
        let pl = \<lparr>sessionId = session_id st, scamDetected = scam_detected st,
                  totalMessagesExchanged = turn_count st,
                  extractedIntelligence = extracted_intelligence st,
                  agentNotes = generate_agent_notes st\<rparr>
        in case http w of
             Status c \<Rightarrow>
               (if c = 200 then (st\<lparr>callback_sent := True\<rparr>, True, Some pl)
                else (st, False, Some pl))
           | RequestFailed \<Rightarrow> (st, False, Some pl))"

text \<open>The reporting step of a turn: \<open>if session.scam_detected and ...: send_guvi_callback\<close>.\<close>

definition report_step :: "world \<Rightarrow> conversation_state \<Rightarrow> conversation_state \<times> payload option" where
  "report_step w st =
     (if scam_detected st \<and> has_valuable_intelligence st
      then (let (st1, ok, posted) = send_guvi_callback w st in (st1, posted))
      else (st, None))"

text \<open>The classification step: \<open>if not session.scam_detected: ...\<close>; the flag says whether
  \<open>detect_scam\<close> was called.\<close>

definition classify_step :: "world \<Rightarrow> conversation_state \<Rightarrow> string \<Rightarrow> conversation_state \<times> bool" where
  "classify_step w st m =
     (if \<not> scam_detected st
      then (let (is_scam, reason) = detect_scam w m
            in (st\<lparr>scam_detected := is_scam, scam_type := Some reason\<rparr>, True))
      else (st, False))"

datatype response = Success string | Error py_error

record turn_result =
  reply :: response
  store_after :: sessions
  classified :: bool
  reported :: "payload option"

definition failed :: "sessions \<Rightarrow> string \<Rightarrow> py_error \<Rightarrow> conversation_state \<Rightarrow> turn_result" where
  "failed store sid e st =
     \<lparr>reply = Error e, store_after = store(sid \<mapsto> st), classified = False, reported = None\<rparr>"

definition process_scam_message ::
  "(string list \<Rightarrow> string list) \<Rightarrow> world \<Rightarrow> sessions \<Rightarrow> string \<Rightarrow> string
     \<Rightarrow> history_item list option \<Rightarrow> string \<Rightarrow> turn_result" where
  "process_scam_message so w store m sid conversation_history p =
     (case get_or_create_session so store sid p
             (case conversation_history of None \<Rightarrow> [] | Some h \<Rightarrow> h) of
        Raised e st \<Rightarrow> failed store sid e st
      | Done session \<Rightarrow>
          (case add_message so session ''scammer'' m PyNone (now1 w) of
             Raised e st \<Rightarrow> failed store sid e st
           | Done st1 \<Rightarrow>
               let (st2, called) = classify_step w st1 m;
                   r = generate_contextual_response w st2 m
               in (case add_message so st2 ''user'' r PyNone (now2 w) of
                     Raised e st \<Rightarrow>
                       \<lparr>reply = Error e, store_after = store(sid \<mapsto> st), classified = called,
                        reported = None\<rparr>
                   | Done st3 \<Rightarrow>
                       let (st4, posted) = report_step w st3
                       in \<lparr>reply = Success r, store_after = store(sid \<mapsto> st4),
                           classified = called, reported = posted\<rparr>)))"

text \<open>A sequence of turns of one session: each turn is what arrives and what the world answers.\<close>

record turn =
  t_world :: world
  t_message :: string
  t_history :: "history_item list option"
  t_persona :: string

fun run :: "(string list \<Rightarrow> string list) \<Rightarrow> string \<Rightarrow> sessions \<Rightarrow> turn list \<Rightarrow> sessions" where
  "run so sid store [] = store"
| "run so sid store (t # ts) =
     run so sid
       (store_after (process_scam_message so (t_world t) store (t_message t) sid (t_history t)
          (t_persona t))) ts"

section \<open>Notions used in the proofs\<close>

text \<open>
  \<open>shape ic r w\<close>: the string \<open>w\<close> has the form of the pattern \<open>r\<close>, the context that
  \<open>\b\<close> looks at left aside.  Every match of the engine has the shape of its pattern
  (\<open>ms_sound\<close>), and so has every string that \<open>findall\<close> returns.
\<close>

fun shape :: "bool \<Rightarrow> rx \<Rightarrow> string \<Rightarrow> bool" where
  "shape ic Eps w = (w = [])"
| "shape ic (Lit l) w = list_all2 (chr_eq ic) l w"
| "shape ic (Cls cs) w = (\<exists>c. w = [c] \<and> cmatch ic cs c)"
| "shape ic (Rep m n cs) w =
     (m \<le> length w \<and> (case n of None \<Rightarrow> True | Some b \<Rightarrow> length w \<le> b) \<and> (\<forall>c \<in> set w. cmatch ic cs c))"
| "shape ic (Seq a b) w = (\<exists>u v. w = u @ v \<and> shape ic a u \<and> shape ic b v)"
| "shape ic (Alt a b) w = (shape ic a w \<or> shape ic b w)"
| "shape ic (Opt a) w = (w = [] \<or> shape ic a w)"
| "shape ic WordB w = (w = [])"




definition upi_domain :: "string \<Rightarrow> string" where
  "upi_domain m = split CHR ''@'' m ! 1"

definition upi_kept :: "string \<Rightarrow> string list" where
  "upi_kept t = filter (\<lambda>m. lower (upi_domain m) \<notin> set email_domains) (findall True UPI_ID_PATTERN t)"

definition intel :: "(string list \<Rightarrow> string list) \<Rightarrow> string \<Rightarrow> extraction" where
  "intel so t =
     (if t = [] then no_intelligence else
      \<lparr>bank_accounts = extract_bank_accounts so t, upi_ids = so (upi_kept t),
       phone_numbers = extract_phone_numbers so t, phishing_links = extract_urls so t,
       emails = extract_emails so t, ifsc_codes = extract_ifsc_codes so t,
       has_intelligence = (extract_bank_accounts so t \<noteq> [] \<or> so (upi_kept t) \<noteq> [] \<or>
         extract_phone_numbers so t \<noteq> [] \<or> extract_urls so t \<noteq> [] \<or>
         extract_emails so t \<noteq> [] \<or> extract_ifsc_codes so t \<noteq> [])\<rparr>)"

definition rev_order :: "string list \<Rightarrow> string list" where
  "rev_order xs = rev (remdups xs)"

text \<open>
  The values the state functions return: no call of \<open>extract_and_merge\<close> raises, so each
  function is \<open>Done\<close> of the record below.
\<close>

definition merge_intel :: "(string list \<Rightarrow> string list) \<Rightarrow> intelligence \<Rightarrow> string \<Rightarrow> intelligence" where
  "merge_intel so ei t =
     \<lparr>bankAccounts = merge_into (bankAccounts ei) (bank_accounts (intel so t)),
      upiIds = merge_into (upiIds ei) (upi_ids (intel so t)),
      phoneNumbers = merge_into (phoneNumbers ei) (phone_numbers (intel so t)),
      phishingLinks = merge_into (phishingLinks ei) (phishing_links (intel so t)),
      suspiciousKeywords = merge_into (suspiciousKeywords ei) (keywords_in t)\<rparr>"

definition added ::
  "(string list \<Rightarrow> string list) \<Rightarrow> conversation_state \<Rightarrow> string \<Rightarrow> string \<Rightarrow> pyval \<Rightarrow> int
     \<Rightarrow> conversation_state" where
  "added so st r c ts now =
     st\<lparr>messages := messages st @
           [\<lparr>role = r, content = c, timestamp = (if truthy ts then ts else PyInt now)\<rparr>],
        turn_count := turn_count st + 1,
        extracted_intelligence :=
          (if r = ''scammer'' then merge_intel so (extracted_intelligence st) c
           else extracted_intelligence st)\<rparr>"

definition scammer_texts :: "history_item list \<Rightarrow> string list" where
  "scammer_texts h = map content (filter (\<lambda>m. role m = ''scammer'') (map to_message h))"

definition rebuilt ::
  "(string list \<Rightarrow> string list) \<Rightarrow> conversation_state \<Rightarrow> history_item list \<Rightarrow> conversation_state" where
  "rebuilt so st h =
     st\<lparr>messages := map to_message h,
        extracted_intelligence := foldl (merge_intel so) (extracted_intelligence st) (scammer_texts h),
        turn_count := length h\<rparr>"

definition rebuilds :: "conversation_state \<Rightarrow> history_item list \<Rightarrow> bool" where
  "rebuilds st h = (h \<noteq> [] \<and> length h > length (messages st))"

definition reconciled ::
  "(string list \<Rightarrow> string list) \<Rightarrow> sessions \<Rightarrow> string \<Rightarrow> string \<Rightarrow> history_item list
     \<Rightarrow> conversation_state" where
  "reconciled so store sid p h =
     (let session = lookup_or_new store sid p
      in if rebuilds session h then rebuilt so session h else session)"

section \<open>The vocabulary of the claims\<close>

text \<open>
  The kinds of finding the specification names.  \<open>merged ei k\<close> is the set the record holds
  for the kind \<open>k\<close>: the record has no list for \<open>Email\<close> and \<open>RoutingCode\<close>, so it holds nothing
  for them.  \<open>extracted so k t\<close> is what one run of the extraction finds in the text \<open>t\<close> (the
  keywords are found by \<open>extract_and_merge\<close> itself).  \<open>processed\<close> lists the texts that the turns
  of a session hand to \<open>extract_and_merge\<close>, in order: the Counterparty entries of a history
  that is replayed, and the new message.
\<close>

datatype kind = BankAccount | UpiId | PhoneNumber | Url | Email | RoutingCode | Keyword

fun merged :: "intelligence \<Rightarrow> kind \<Rightarrow> string set" where
  "merged ei BankAccount = set (bankAccounts ei)"
| "merged ei UpiId = set (upiIds ei)"
| "merged ei PhoneNumber = set (phoneNumbers ei)"
| "merged ei Url = set (phishingLinks ei)"
| "merged ei Keyword = set (suspiciousKeywords ei)"
| "merged ei Email = {}"
| "merged ei RoutingCode = {}"

fun found :: "extraction \<Rightarrow> string \<Rightarrow> kind \<Rightarrow> string set" where
  "found r t BankAccount = set (bank_accounts r)"
| "found r t UpiId = set (upi_ids r)"
| "found r t PhoneNumber = set (phone_numbers r)"
| "found r t Url = set (phishing_links r)"
| "found r t Email = set (emails r)"
| "found r t RoutingCode = set (ifsc_codes r)"
| "found r t Keyword = set (keywords_in t)"

definition extracted :: "(string list \<Rightarrow> string list) \<Rightarrow> kind \<Rightarrow> string \<Rightarrow> string set" where
  "extracted so k t = (case extract_intelligence so (PyStr t) of Inl e \<Rightarrow> {} | Inr r \<Rightarrow> found r t k)"

definition kept :: "kind \<Rightarrow> bool" where
  "kept k = (k \<noteq> Email \<and> k \<noteq> RoutingCode)"

definition no_findings :: intelligence where
  "no_findings = \<lparr>bankAccounts = [], upiIds = [], phoneNumbers = [], phishingLinks = [],
     suspiciousKeywords = []\<rparr>"

definition held :: "sessions \<Rightarrow> string \<Rightarrow> intelligence" where
  "held store sid = (case store sid of None \<Rightarrow> no_findings | Some st \<Rightarrow> extracted_intelligence st)"

definition merged_of :: "sessions \<Rightarrow> string \<Rightarrow> kind \<Rightarrow> string set" where
  "merged_of store sid k = merged (held store sid) k"

definition turn_texts :: "sessions \<Rightarrow> string \<Rightarrow> turn \<Rightarrow> string list" where
  "turn_texts store sid t =
     (let h = (case t_history t of None \<Rightarrow> [] | Some h \<Rightarrow> h)
      in (if rebuilds (lookup_or_new store sid (t_persona t)) h then scammer_texts h else [])
         @ [t_message t])"

fun processed :: "(string list \<Rightarrow> string list) \<Rightarrow> string \<Rightarrow> sessions \<Rightarrow> turn list \<Rightarrow> string list" where
  "processed so sid store [] = []"
| "processed so sid store (t # ts) =
     turn_texts store sid t @
     processed so sid
       (store_after (process_scam_message so (t_world t) store (t_message t) sid (t_history t)
          (t_persona t))) ts"

definition tidy :: "intelligence \<Rightarrow> bool" where
  "tidy ei = (distinct (bankAccounts ei) \<and> distinct (upiIds ei) \<and> distinct (phoneNumbers ei) \<and>
     distinct (phishingLinks ei) \<and> distinct (suspiciousKeywords ei))"

text \<open>A world, and the two turns of the end-to-end scenario.\<close>

definition calm :: world where
  "calm = \<lparr>now1 = 1, now2 = 2, verdict = (True, ''scam''), gemini_reply = None, http = Status 200\<rparr>"

definition turn1 :: turn where
  "turn1 = \<lparr>t_world = calm, t_message = ''Send money to account 1234567890123 IFSC SBIN0001234'',
     t_history = None, t_persona = ''elderly_uncle''\<rparr>"

definition turn2 :: turn where
  "turn2 = \<lparr>t_world = calm, t_message = ''or pay via merchant@ybl'',
     t_history = None, t_persona = ''elderly_uncle''\<rparr>"

text \<open>
  The record an outcome carries, and the worlds, turns, histories and records of the scenarios
  the theorems are tried on.
\<close>

fun state_of :: "'a outcome \<Rightarrow> 'a" where
  "state_of (Done st) = st"
| "state_of (Raised e st) = st"

definition wary :: world where
  "wary = \<lparr>now1 = 1, now2 = 2, verdict = (False, ''looks fine''), gemini_reply = None,
     http = Status 200\<rparr>"

definition paid :: turn where
  "paid = \<lparr>t_world = calm, t_message = ''pay a@ybl'', t_history = None,
     t_persona = ''elderly_uncle''\<rparr>"

definition chat :: "history_item list" where
  "chat = [\<lparr>sender = Some ''scammer'', h_text = Some ''hi'', h_timestamp = None\<rparr>,
           \<lparr>sender = Some ''user'', h_text = Some ''ok'', h_timestamp = None\<rparr>,
           \<lparr>sender = Some ''scammer'', h_text = Some ''yo'', h_timestamp = None\<rparr>]"

definition after_paid :: conversation_state where
  "after_paid =
     \<lparr>session_id = ''s'', persona = ''elderly_uncle'',
      messages = [\<lparr>role = ''scammer'', content = ''pay a@ybl'', timestamp = PyInt 1\<rparr>,
                  \<lparr>role = ''user'',
                   content = ''Okay beta, but how will I receive the money? What details you need?'',
                   timestamp = PyInt 2\<rparr>],
      extracted_intelligence = \<lparr>bankAccounts = [], upiIds = [''a@ybl''], phoneNumbers = [],
        phishingLinks = [], suspiciousKeywords = []\<rparr>,
      scam_detected = True, scam_type = Some ''scam'', turn_count = 2, callback_sent = True,
      agent_notes = []\<rparr>"


definition down :: world where
  "down = calm\<lparr>http := Status 503\<rparr>"

definition greet :: turn where
  "greet = \<lparr>t_world = wary, t_message = ''hi'', t_history = None, t_persona = ''elderly_uncle''\<rparr>"

definition after_hi :: conversation_state where
  "after_hi =
     \<lparr>session_id = ''s'', persona = ''elderly_uncle'',
      messages = [\<lparr>role = ''scammer'', content = ''hi'', timestamp = PyInt 1\<rparr>,
                  \<lparr>role = ''user'',
                   content = ''Okay beta, but how will I receive the money? What details you need?'',
                   timestamp = PyInt 2\<rparr>],
      extracted_intelligence = \<lparr>bankAccounts = [], upiIds = [], phoneNumbers = [],
        phishingLinks = [], suspiciousKeywords = []\<rparr>,
      scam_detected = False, scam_type = Some ''looks fine'', turn_count = 2, callback_sent = False,
      agent_notes = []\<rparr>"

section \<open>Soundness of the matcher and the shapes of the catalogue\<close>

lemma lit_prefix_take:
  "lit_prefix ic l s \<Longrightarrow> length l \<le> length s \<and> list_all2 (chr_eq ic) l (take (length l) s)"
  by (induction ic l s rule: lit_prefix.induct) auto

lemma rep_max_take:
  assumes "n \<le> rep_max ic b cs s"
  shows "n \<le> length s \<and> (case b of None \<Rightarrow> True | Some b \<Rightarrow> length (take n s) \<le> b)
         \<and> (\<forall>c \<in> set (take n s). cmatch ic cs c)"
proof -
  let ?t = "takeWhile (cmatch ic cs) s"
  from assms have k: "n \<le> length ?t"
    by (auto simp: rep_max_def Let_def split: option.splits)
  have le: "length ?t \<le> length s" by (rule length_takeWhile_le)
  have "take n (?t @ dropWhile (cmatch ic cs) s) = take n ?t"
    using k by (simp only: take_append) simp
  then have "take n s = take n ?t" by (simp only: takeWhile_dropWhile_id)
  then have "set (take n s) \<subseteq> set ?t" by (metis set_take_subset)
  then have all: "\<forall>c \<in> set (take n s). cmatch ic cs c" by (auto dest: set_takeWhileD)
  from assms have "case b of None \<Rightarrow> True | Some b \<Rightarrow> n \<le> b"
    by (auto simp: rep_max_def Let_def split: option.splits)
  with k le all show ?thesis by (auto split: option.splits)
qed

lemma ms_sound:
  "n \<in> set (ms ic r p s) \<Longrightarrow> n \<le> length s \<and> shape ic r (take n s)"
proof (induction r arbitrary: n p s)
  case (Lit l)
  then show ?case using lit_prefix_take[of ic l s] by (auto split: if_splits)
next
  case (Cls cs)
  then show ?case by (cases s) (auto split: if_splits)
next
  case (Rep m b cs)
  then have "m \<le> n" "n \<le> rep_max ic b cs s" by (auto simp: Let_def split: if_splits)
  with rep_max_take[of n ic b cs s] show ?case by (auto split: option.splits)
next
  case (Seq a b)
  then obtain n1 n2 where n: "n = n1 + n2" "n1 \<in> set (ms ic a p s)"
      "n2 \<in> set (ms ic b (prev_at p s n1) (drop n1 s))" by auto
  from Seq.IH(1)[OF n(2)] have a: "n1 \<le> length s" "shape ic a (take n1 s)" by auto
  from Seq.IH(2)[OF n(3)] have b: "n2 \<le> length (drop n1 s)" "shape ic b (take n2 (drop n1 s))" by auto
  have "take n s = take n1 s @ take n2 (drop n1 s)" using n(1) by (simp add: take_add)
  with a b n(1) show ?case by auto
next
  case (Opt a)
  then show ?case by auto
qed (auto split: if_splits)

lemma findall_from_shape:
  "w \<in> set (findall_from ic r p s) \<Longrightarrow> shape ic r w"
proof (induction ic r p s rule: findall_from.induct)
  case (1 ic r p)
  then show ?case
  proof (cases "ms ic r p []")
    case Nil with 1 show ?thesis by simp
  next
    case (Cons n ns)
    then have "n \<in> set (ms ic r p [])" by simp
    from ms_sound[OF this] have "shape ic r []" by simp
    with 1 Cons show ?thesis by simp
  qed
next
  case (2 ic r p c cs)
  show ?case
  proof (cases "ms ic r p (c # cs)")
    case Nil with 2 show ?thesis by simp
  next
    case (Cons n ns)
    then have "n \<in> set (ms ic r p (c # cs))" by simp
    from ms_sound[OF this] have sh: "shape ic r (take n (c # cs))" by simp
    show ?thesis
    proof (cases "n = 0")
      case True
      with 2 Cons sh show ?thesis by auto
    next
      case False
      with 2 Cons sh show ?thesis by auto
    qed
  qed
qed

lemma findall_shape: "w \<in> set (findall ic r t) \<Longrightarrow> shape ic r w"
  unfolding findall_def by (rule findall_from_shape)

lemma chr_eq_False [simp]: "chr_eq False = (=)"
  by (auto simp: chr_eq_def fun_eq_iff)

lemma list_all2_eq_iff [simp]: "list_all2 (=) xs ys = (xs = ys)"
  by (simp add: list_all2_eq)













lemma split_nonempty: "split c s \<noteq> []"
  by (induction s) (auto split: list.splits)

lemma split_length: "c \<in> set s \<Longrightarrow> 2 \<le> length (split c s)"
proof (induction s)
  case Nil then show ?case by simp
next
  case (Cons x xs)
  show ?case
  proof (cases "x = c")
    case True
    then show ?thesis using split_nonempty[of c xs] by (cases "split c xs") auto
  next
    case False
    with Cons show ?thesis by (auto split: list.splits)
  qed
qed

lemma py_lower_at: "py_lower x = CHR ''@'' \<Longrightarrow> x = CHR ''@''"
proof -
  assume a: "py_lower x = CHR ''@''"
  show ?thesis
  proof (cases "is_upper_az x \<or> (in_range 0xC0 0xDE x \<and> code x \<noteq> 0xD7)")
    case False
    with a show ?thesis by (simp add: py_lower_def)
  next
    case True
    with a have "char_of (code x + 32) = CHR ''@''" by (simp add: py_lower_def)
    then have "of_char (char_of (code x + 32) :: char) = (of_char (CHR ''@'') :: nat)" by simp
    then have "(code x + 32) mod 256 = 64" by simp
    with True show ?thesis by (auto simp: is_upper_az_def in_range_def)
  qed
qed

lemma chr_eq_at: "chr_eq ic CHR ''@'' z \<Longrightarrow> z = CHR ''@''"
proof -
  assume a: "chr_eq ic CHR ''@'' z"
  have l: "py_lower CHR ''@'' = CHR ''@''"
    by (simp add: py_lower_def is_upper_az_def in_range_def code_def)
  show ?thesis
  proof (cases ic)
    case True
    with a l have "py_lower z = CHR ''@''" by (simp add: chr_eq_def)
    then show ?thesis by (rule py_lower_at)
  next
    case False
    with a show ?thesis by (simp add: chr_eq_def)
  qed
qed

lemma upi_shape_at: "shape True UPI_ID_PATTERN w \<Longrightarrow> CHR ''@'' \<in> set w"
  unfolding UPI_ID_PATTERN_def
  by (auto simp: list_all2_Cons1 dest: chr_eq_at)

lemma upi_filter_total:
  "\<forall>m \<in> set xs. CHR ''@'' \<in> set m \<Longrightarrow>
   upi_filter xs = Inr (filter (\<lambda>m. lower (upi_domain m) \<notin> set email_domains) xs)"
proof (induction xs)
  case Nil then show ?case by simp
next
  case (Cons m xs)
  then have "2 \<le> length (split CHR ''@'' m)" by (simp add: split_length)
  then have "index (split CHR ''@'' m) 1 = Inr (upi_domain m)"
    by (simp add: index_def upi_domain_def)
  with Cons show ?case by simp
qed

lemma extract_upi_ids_total: "extract_upi_ids so t = Inr (so (upi_kept t))"
proof -
  have "\<forall>m \<in> set (findall True UPI_ID_PATTERN t). CHR ''@'' \<in> set m"
    using findall_shape upi_shape_at by blast
  from upi_filter_total[OF this] show ?thesis by (simp add: extract_upi_ids_def upi_kept_def)
qed

lemma extract_intelligence_str: "extract_intelligence so (PyStr t) = Inr (intel so t)"
  by (simp add: intel_def extract_upi_ids_total Let_def)

lemma extract_intelligence_total: "\<exists>r. extract_intelligence so v = Inr r"
  by (cases v) (simp_all add: extract_intelligence_str del: extract_intelligence.simps(1))

lemma set_order_set: "set_order so \<Longrightarrow> set (so xs) = set xs"
  by (simp add: set_order_def)


lemma set_order_Nil: "set_order so \<Longrightarrow> (so xs = []) = (xs = [])"
  by (metis set_order_set set_empty)

lemma set_order_remdups: "set_order remdups"
  by (simp add: set_order_def)



lemma looks_like_phone_iff:
  "looks_like_phone m = (length m = 10 \<and> (\<exists>c cs. m = c # cs \<and> c \<in> set ''6789''))"
  by (cases m) (auto simp: looks_like_phone_def)

lemma intel_sets:
  assumes "set_order so" "set_order so'"
  shows "set (bank_accounts (intel so t)) = set (bank_accounts (intel so' t))"
    "set (upi_ids (intel so t)) = set (upi_ids (intel so' t))"
    "set (phone_numbers (intel so t)) = set (phone_numbers (intel so' t))"
    "set (phishing_links (intel so t)) = set (phishing_links (intel so' t))"
    "set (emails (intel so t)) = set (emails (intel so' t))"
    "set (ifsc_codes (intel so t)) = set (ifsc_codes (intel so' t))"
  using assms
  by (simp_all add: intel_def no_intelligence_def set_order_set extract_bank_accounts_def
      extract_phone_numbers_def extract_urls_def extract_emails_def extract_ifsc_codes_def)

lemma intel_has:
  assumes "set_order so" "set_order so'"
  shows "has_intelligence (intel so t) = has_intelligence (intel so' t)"
  using assms
  by (simp add: intel_def no_intelligence_def set_order_Nil extract_bank_accounts_def
      extract_phone_numbers_def extract_urls_def extract_emails_def extract_ifsc_codes_def)

lemma extract_intelligence_falsy:
  "(\<forall>t. v = PyStr t \<longrightarrow> t = []) \<Longrightarrow> extract_intelligence so v = Inr no_intelligence"
  by (cases v) simp_all

lemma set_order_rev: "set_order rev_order"
  by (simp add: set_order_def rev_order_def)

section \<open>The state functions never raise; what a turn adds\<close>

lemma extract_and_merge_done:
  "extract_and_merge so st t =
     Done (st\<lparr>extracted_intelligence := merge_intel so (extracted_intelligence st) t\<rparr>)"
  by (simp add: extract_and_merge_def extract_intelligence_str merge_intel_def Let_def
      del: extract_intelligence.simps)

lemma add_message_done: "add_message so st r c ts now = Done (added so st r c ts now)"
  by (simp add: add_message_def added_def extract_and_merge_done Let_def)

lemma rebuild_loop_done:
  "rebuild_loop so st h =
     Done (st\<lparr>messages := messages st @ map to_message h,
              extracted_intelligence :=
                foldl (merge_intel so) (extracted_intelligence st) (scammer_texts h)\<rparr>)"
proof (induction h arbitrary: st)
  case Nil
  then show ?case by (simp add: scammer_texts_def)
next
  case (Cons msg rest)
  show ?case
    by (simp add: Cons.IH extract_and_merge_done Let_def scammer_texts_def)
qed

lemma rebuild_from_history_done: "rebuild_from_history so st h = Done (rebuilt so st h)"
  by (simp add: rebuild_from_history_def rebuild_loop_done rebuilt_def)

lemma get_or_create_session_done:
  "get_or_create_session so store sid p h = Done (reconciled so store sid p h)"
  by (simp add: get_or_create_session_def reconciled_def rebuilds_def rebuild_from_history_done Let_def)

lemma process_scam_message_done:
  "process_scam_message so w store m sid ch p =
     (let s0 = reconciled so store sid p (case ch of None \<Rightarrow> [] | Some h \<Rightarrow> h);
          s1 = added so s0 ''scammer'' m PyNone (now1 w);
          s2 = fst (classify_step w s1 m);
          r = generate_contextual_response w s2 m;
          s3 = added so s2 ''user'' r PyNone (now2 w)
      in \<lparr>reply = Success r, store_after = store(sid \<mapsto> fst (report_step w s3)),
          classified = snd (classify_step w s1 m), reported = snd (report_step w s3)\<rparr>)"
  by (simp add: process_scam_message_def get_or_create_session_done add_message_done Let_def
      split: prod.splits)

lemma set_merge_into: "set (merge_into cur xs) = set cur \<union> set xs"
  by (induction xs arbitrary: cur) auto

lemma distinct_merge_into: "distinct cur \<Longrightarrow> distinct (merge_into cur xs)"
  by (induction xs arbitrary: cur) auto

lemma extracted_intel: "extracted so k t = found (intel so t) t k"
  by (simp add: extracted_def extract_intelligence_str del: extract_intelligence.simps)

lemma merged_merge_intel:
  "kept k \<Longrightarrow> merged (merge_intel so ei t) k = merged ei k \<union> extracted so k t"
  by (cases k) (simp_all add: merge_intel_def set_merge_into extracted_intel kept_def)

lemma merged_dropped: "\<not> kept k \<Longrightarrow> merged ei k = {}"
  by (cases k) (simp_all add: kept_def)

lemma tidy_merge_intel: "tidy ei \<Longrightarrow> tidy (merge_intel so ei t)"
  by (simp add: tidy_def merge_intel_def distinct_merge_into)

lemma merged_foldl:
  "kept k \<Longrightarrow> merged (foldl (merge_intel so) ei ts) k = merged ei k \<union> (\<Union>t \<in> set ts. extracted so k t)"
  by (induction ts arbitrary: ei) (auto simp: merged_merge_intel)

lemma tidy_foldl: "tidy ei \<Longrightarrow> tidy (foldl (merge_intel so) ei ts)"
  by (induction ts arbitrary: ei) (auto simp: tidy_merge_intel)

lemma held_lookup_or_new: "extracted_intelligence (lookup_or_new store sid p) = held store sid"
  by (simp add: lookup_or_new_def held_def init_def no_findings_def split: option.splits)

lemma report_step_intel [simp]:
  "extracted_intelligence (fst (report_step w st)) = extracted_intelligence st"
  by (simp add: report_step_def send_guvi_callback_def Let_def split: http_outcome.splits)

lemma classify_step_intel [simp]:
  "extracted_intelligence (fst (classify_step w st m)) = extracted_intelligence st"
  by (simp add: classify_step_def split: prod.splits)

lemma reconciled_intel:
  "extracted_intelligence (reconciled so store sid p h) =
     foldl (merge_intel so) (held store sid)
       (if rebuilds (lookup_or_new store sid p) h then scammer_texts h else [])"
  by (simp add: reconciled_def rebuilt_def held_lookup_or_new Let_def)

lemma step_held:
  "held (store_after (process_scam_message so (t_world t) store (t_message t) sid (t_history t)
          (t_persona t))) sid
   = foldl (merge_intel so) (held store sid) (turn_texts store sid t)"
  by (simp add: process_scam_message_done Let_def held_def added_def reconciled_intel turn_texts_def)

lemma step_other:
  "x \<noteq> sid \<Longrightarrow>
   store_after (process_scam_message so w store m sid ch p) x = store x"
  by (simp add: process_scam_message_done Let_def)

lemma run_held:
  "held (run so sid store ts) sid = foldl (merge_intel so) (held store sid) (processed so sid store ts)"
  by (induction ts arbitrary: store) (simp_all add: step_held)

lemma run_other: "x \<noteq> sid \<Longrightarrow> run so sid store ts x = store x"
  by (induction ts arbitrary: store) (simp_all add: step_other)

lemma run_append: "run so sid store (ts @ us) = run so sid (run so sid store ts) us"
  by (induction ts arbitrary: store) simp_all

lemma run_grows: "merged_of store x k \<subseteq> merged_of (run so sid store ts) x k"
proof (cases "x = sid")
  case False
  then show ?thesis by (simp add: merged_of_def held_def run_other)
next
  case True
  show ?thesis
  proof (cases "kept k")
    case True
    with \<open>x = sid\<close> show ?thesis by (simp add: merged_of_def run_held merged_foldl)
  next
    case False
    then show ?thesis by (simp add: merged_of_def merged_dropped)
  qed
qed

section \<open>The end-to-end scenario, evaluated\<close>

lemma e2e_intel_1:
  "intel remdups ''Send money to account 1234567890123 IFSC SBIN0001234'' =
     \<lparr>bank_accounts = [''1234567890123''], upi_ids = [], phone_numbers = [], phishing_links = [],
      emails = [], ifsc_codes = [''SBIN0001234''], has_intelligence = True\<rparr>"
  by code_simp

lemma e2e_keywords_1: "keywords_in ''Send money to account 1234567890123 IFSC SBIN0001234'' = []"
  by code_simp

lemma e2e_intel_2:
  "intel remdups ''or pay via merchant@ybl'' =
     \<lparr>bank_accounts = [], upi_ids = [''merchant@ybl''], phone_numbers = [], phishing_links = [],
      emails = [], ifsc_codes = [], has_intelligence = True\<rparr>"
  by code_simp

lemma e2e_keywords_2: "keywords_in ''or pay via merchant@ybl'' = []"
  by code_simp

lemma e2e_processed_1:
  "processed remdups ''s'' Map.empty [turn1] = [''Send money to account 1234567890123 IFSC SBIN0001234'']"
  by (simp add: turn_texts_def turn1_def rebuilds_def)

lemma e2e_processed_2:
  "processed remdups ''s'' Map.empty [turn1, turn2] =
     [''Send money to account 1234567890123 IFSC SBIN0001234'', ''or pay via merchant@ybl'']"
  by (simp add: turn_texts_def turn1_def turn2_def rebuilds_def)

lemma e2e_held_1:
  "held (run remdups ''s'' Map.empty [turn1]) ''s'' =
     \<lparr>bankAccounts = [''1234567890123''], upiIds = [], phoneNumbers = [], phishingLinks = [],
      suspiciousKeywords = []\<rparr>"
  unfolding run_held e2e_processed_1
  by (simp add: held_def no_findings_def merge_intel_def e2e_intel_1 e2e_keywords_1)

lemma e2e_held_2:
  "held (run remdups ''s'' Map.empty [turn1, turn2]) ''s'' =
     \<lparr>bankAccounts = [''1234567890123''], upiIds = [''merchant@ybl''], phoneNumbers = [],
      phishingLinks = [], suspiciousKeywords = []\<rparr>"
  unfolding run_held e2e_processed_2
  by (simp add: held_def no_findings_def merge_intel_def e2e_intel_1 e2e_keywords_1
      e2e_intel_2 e2e_keywords_2)

section \<open>Flags, the reporting step and the classification step\<close>

lemma paid_store: "run remdups ''s'' Map.empty [paid] ''s'' = Some after_paid"
  by code_simp

lemma intel_hi: "intel remdups ''hi'' = no_intelligence"
  by code_simp

lemma intel_yo: "intel remdups ''yo'' = no_intelligence"
  by code_simp

lemma keywords_hi_yo: "keywords_in ''hi'' = [] \<and> keywords_in ''yo'' = []"
  by code_simp

lemma no_rebuild_short:
  "length h \<le> length (messages (lookup_or_new store sid p)) \<Longrightarrow>
   get_or_create_session so store sid p h = get_or_create_session so store sid p []"
  by (simp add: get_or_create_session_def Let_def)

lemma rebuilds_longer:
  "length h > length (messages st) \<Longrightarrow> rebuilds st h"
  by (auto simp: rebuilds_def)

lemma rebuilt_after_paid:
  "get_or_create_session remdups (run remdups ''s'' Map.empty [paid]) ''s'' ''elderly_uncle'' chat =
     Done (after_paid\<lparr>messages := map to_message chat, turn_count := 3\<rparr>)"
proof -
  have l: "lookup_or_new (run remdups ''s'' Map.empty [paid]) ''s'' ''elderly_uncle'' = after_paid"
    unfolding lookup_or_new_def paid_store by simp
  have r: "rebuilds after_paid chat" by (simp add: rebuilds_def after_paid_def chat_def)
  have t: "scammer_texts chat = [''hi'', ''yo'']"
    by (simp add: scammer_texts_def chat_def to_message_def)
  have m: "merge_intel remdups ei ''hi'' = ei" "merge_intel remdups ei ''yo'' = ei" for ei
    by (simp_all add: merge_intel_def intel_hi intel_yo keywords_hi_yo no_intelligence_def)
  have n: "length chat = 3" by (simp add: chat_def)
  show ?thesis
    unfolding get_or_create_session_done reconciled_def l Let_def
    using r by (simp add: rebuilt_def t m n)
qed

lemma rebuilt_fresh:
  "get_or_create_session remdups Map.empty ''s'' ''elderly_uncle'' chat =
     Done ((init ''s'' ''elderly_uncle'')\<lparr>messages := map to_message chat, turn_count := 3\<rparr>)"
proof -
  have r: "rebuilds (init ''s'' ''elderly_uncle'') chat" by (simp add: rebuilds_def init_def chat_def)
  have t: "scammer_texts chat = [''hi'', ''yo'']"
    by (simp add: scammer_texts_def chat_def to_message_def)
  have m: "merge_intel remdups ei ''hi'' = ei" "merge_intel remdups ei ''yo'' = ei" for ei
    by (simp_all add: merge_intel_def intel_hi intel_yo keywords_hi_yo no_intelligence_def)
  have n: "length chat = 3" by (simp add: chat_def)
  show ?thesis
    unfolding get_or_create_session_done reconciled_def Let_def
    using r by (simp add: lookup_or_new_def rebuilt_def t m n)
qed

lemma reconciled_flags [simp]:
  "scam_detected (reconciled so store sid p h) = scam_detected (lookup_or_new store sid p)"
  "scam_type (reconciled so store sid p h) = scam_type (lookup_or_new store sid p)"
  "callback_sent (reconciled so store sid p h) = callback_sent (lookup_or_new store sid p)"
  by (simp_all add: reconciled_def rebuilt_def Let_def)

lemma added_flags [simp]:
  "scam_detected (added so st r c ts now) = scam_detected st"
  "scam_type (added so st r c ts now) = scam_type st"
  "callback_sent (added so st r c ts now) = callback_sent st"
  by (simp_all add: added_def)

lemma added_user_intel [simp]:
  "extracted_intelligence (added so st ''user'' c ts now) = extracted_intelligence st"
  by (simp add: added_def)

lemma classify_step_sent [simp]: "callback_sent (fst (classify_step w st m)) = callback_sent st"
  by (simp add: classify_step_def split: prod.splits)

lemma report_step_scam [simp]:
  "scam_detected (fst (report_step w st)) = scam_detected st"
  "scam_type (fst (report_step w st)) = scam_type st"
  by (simp_all add: report_step_def send_guvi_callback_def Let_def split: http_outcome.splits)





lemma classify_step_called: "snd (classify_step w st m) = (\<not> scam_detected st)"
  by (simp add: classify_step_def split: prod.splits)

lemma classify_step_scam:
  "scam_detected (fst (classify_step w st m)) = (scam_detected st \<or> fst (detect_scam w m))"
  by (simp add: classify_step_def split: prod.splits)

lemma classify_step_type:
  "scam_detected st \<Longrightarrow> scam_type (fst (classify_step w st m)) = scam_type st"
  by (simp add: classify_step_def)

lemma classified_iff:
  "classified (process_scam_message so w store m sid ch p) = (\<not> scam_detected (lookup_or_new store sid p))"
  by (simp add: process_scam_message_done Let_def classify_step_called)

lemma step_scam:
  "\<exists>st'. store_after (process_scam_message so w store m sid ch p) sid = Some st' \<and>
     scam_detected st' = (scam_detected (lookup_or_new store sid p) \<or> fst (detect_scam w m)) \<and>
     (scam_detected (lookup_or_new store sid p) \<longrightarrow> scam_type st' = scam_type (lookup_or_new store sid p))"
  by (simp add: process_scam_message_done Let_def classify_step_scam classify_step_type)

lemma run_scam:
  "store sid = Some st \<Longrightarrow> scam_detected st \<Longrightarrow>
   \<exists>st'. run so sid store ts sid = Some st' \<and> scam_detected st'"
proof (induction ts arbitrary: store st)
  case Nil
  then show ?case by simp
next
  case (Cons t ts)
  let ?store = "store_after (process_scam_message so (t_world t) store (t_message t) sid (t_history t)
          (t_persona t))"
  from Cons.prems have "scam_detected (lookup_or_new store sid (t_persona t))"
    by (simp add: lookup_or_new_def)
  with step_scam[of so "t_world t" store "t_message t" sid "t_history t" "t_persona t"]
  obtain st' where st': "?store sid = Some st'" "scam_detected st'" by auto
  from Cons.IH[of ?store st'] st' show ?case by simp
qed

lemma hi_store: "run remdups ''s'' Map.empty [greet] ''s'' = Some after_hi"
  by code_simp

section \<open>The claims\<close>

text \<open>
  Claim C1, as amended.  For a record created by the first of a sequence of turns, and for each
  kind the record keeps (BankAccount, UpiId, PhoneNumber, Url, Keyword), the merged set equals
  the union of what the extraction finds in every text processed so far (the new messages and
  the Counterparty entries of every history replayed), and no list of the record has a
  duplicate.  Email and RoutingCode findings are not kept: the record has no list for them.
\<close>

theorem merged_is_union_of_kept_kinds:
  assumes "store sid = None" and "kept k"
  shows "merged_of (run so sid store ts) sid k = (\<Union>t \<in> set (processed so sid store ts). extracted so k t) \<and>
         distinct (bankAccounts (held (run so sid store ts) sid)) \<and>
         distinct (upiIds (held (run so sid store ts) sid)) \<and>
         distinct (phoneNumbers (held (run so sid store ts) sid)) \<and>
         distinct (phishingLinks (held (run so sid store ts) sid)) \<and>
         distinct (suspiciousKeywords (held (run so sid store ts) sid))"
proof -
  from assms(1) have h: "held store sid = no_findings" by (simp add: held_def)
  have "merged no_findings k = {}" by (cases k) (simp_all add: no_findings_def)
  with assms(2) h have "merged_of (run so sid store ts) sid k
      = (\<Union>t \<in> set (processed so sid store ts). extracted so k t)"
    by (simp add: merged_of_def run_held merged_foldl)
  moreover have "tidy no_findings" by (simp add: tidy_def no_findings_def)
  then have "tidy (held (run so sid store ts) sid)" by (simp add: run_held h tidy_foldl)
  ultimately show ?thesis by (simp add: tidy_def)
qed

theorem merged_is_union_of_kept_kinds_witness:
  "(Map.empty :: sessions) ''s'' = None \<and> kept UpiId \<and>
   processed remdups ''s'' Map.empty [turn1, turn2] =
     [''Send money to account 1234567890123 IFSC SBIN0001234'', ''or pay via merchant@ybl''] \<and>
   held (run remdups ''s'' Map.empty [turn1, turn2]) ''s'' =
     \<lparr>bankAccounts = [''1234567890123''], upiIds = [''merchant@ybl''], phoneNumbers = [],
      phishingLinks = [], suspiciousKeywords = []\<rparr> \<and>
   merged_of (run remdups ''s'' Map.empty [turn1, turn2]) ''s'' UpiId =
     (\<Union>t \<in> set (processed remdups ''s'' Map.empty [turn1, turn2]). extracted remdups UpiId t) \<and>
   distinct (upiIds (held (run remdups ''s'' Map.empty [turn1, turn2]) ''s''))"
proof -
  have k: "kept UpiId" by (simp add: kept_def)
  have e: "(Map.empty :: sessions) ''s'' = None" by simp
  note n = merged_is_union_of_kept_kinds[OF e k, where so=remdups and ts="[turn1, turn2]"]
  from n have 1: "merged_of (run remdups ''s'' Map.empty [turn1, turn2]) ''s'' UpiId =
     (\<Union>t \<in> set (processed remdups ''s'' Map.empty [turn1, turn2]). extracted remdups UpiId t)"
    by (rule conjunct1)
  from n have 2: "distinct (upiIds (held (run remdups ''s'' Map.empty [turn1, turn2]) ''s''))"
    by blast
  from e k e2e_processed_2 e2e_held_2 1 2 show ?thesis by (intro conjI)
qed

text \<open>
  The claim as stated fails on the first turn of the end-to-end scenario: the extraction finds
  the routing code, and the record after the turn holds it in no list.
\<close>

theorem routing_code_dropped_counterexample:
  "processed remdups ''s'' Map.empty [turn1] =
     [''Send money to account 1234567890123 IFSC SBIN0001234''] \<and>
   ''SBIN0001234'' \<in> extracted remdups RoutingCode ''Send money to account 1234567890123 IFSC SBIN0001234'' \<and>
   held (run remdups ''s'' Map.empty [turn1]) ''s'' =
     \<lparr>bankAccounts = [''1234567890123''], upiIds = [], phoneNumbers = [], phishingLinks = [],
      suspiciousKeywords = []\<rparr> \<and>
   ''SBIN0001234'' \<notin> merged_of (run remdups ''s'' Map.empty [turn1]) ''s'' RoutingCode"
proof -
  let ?T = "''Send money to account 1234567890123 IFSC SBIN0001234''"
  have x: "''SBIN0001234'' \<in> extracted remdups RoutingCode ?T"
    by (simp add: extracted_intel e2e_intel_1)
  have y: "''SBIN0001234'' \<notin> merged_of (run remdups ''s'' Map.empty [turn1]) ''s'' RoutingCode"
    by (simp add: merged_of_def)
  from e2e_processed_1 x e2e_held_1 y show ?thesis by (intro conjI)
qed

text \<open>
  Claim C2, as amended.  When a history is supplied that is longer than the turn count of the
  record (the record of the store, or the new one), reconciliation rebuilds the turn sequence
  from the history in the order given, sets the turn count to its length and runs the
  extraction over every Counterparty entry; the resulting set of each kind the record keeps is
  the union of the set held before the rebuild and the set found in the history.
\<close>

theorem rebuild_merges_history:
  assumes "st = lookup_or_new store sid p"
    and "turn_count st = length (messages st)"
    and "length h > turn_count st"
    and "kept k"
  shows "\<exists>st'. get_or_create_session so store sid p h = Done st' \<and>
           messages st' = map to_message h \<and> turn_count st' = length h \<and>
           merged (extracted_intelligence st') k =
             merged (extracted_intelligence st) k \<union> (\<Union>t \<in> set (scammer_texts h). extracted so k t)"
proof -
  from assms(1-3) have r: "rebuilds (lookup_or_new store sid p) h" by (simp add: rebuilds_longer)
  then have "reconciled so store sid p h = rebuilt so st h"
    by (simp add: reconciled_def assms(1))
  with assms(4) show ?thesis
    by (simp add: get_or_create_session_done rebuilt_def merged_foldl)
qed

theorem rebuild_merges_history_witness:
  "after_paid = lookup_or_new (run remdups ''s'' Map.empty [paid]) ''s'' ''elderly_uncle'' \<and>
   turn_count after_paid = length (messages after_paid) \<and>
   length chat > turn_count after_paid \<and> kept UpiId \<and>
   (\<exists>st'. get_or_create_session remdups (run remdups ''s'' Map.empty [paid]) ''s'' ''elderly_uncle'' chat
            = Done st' \<and>
      messages st' = map to_message chat \<and> turn_count st' = length chat \<and>
      merged (extracted_intelligence st') UpiId =
        merged (extracted_intelligence after_paid) UpiId \<union>
        (\<Union>t \<in> set (scammer_texts chat). extracted remdups UpiId t))"
proof -
  have l: "after_paid = lookup_or_new (run remdups ''s'' Map.empty [paid]) ''s'' ''elderly_uncle''"
    unfolding lookup_or_new_def paid_store by simp
  have a: "turn_count after_paid = length (messages after_paid)" by (simp add: after_paid_def)
  have b: "length chat > turn_count after_paid" by (simp add: after_paid_def chat_def)
  have k: "kept UpiId" by (simp add: kept_def)
  note n = rebuild_merges_history[where store="run remdups ''s'' Map.empty [paid]" and sid="''s''"
      and st=after_paid and h=chat and so=remdups and p="''elderly_uncle''" and k=UpiId, OF l a b k]
  from n l a b k show ?thesis by (intro conjI)
qed

text \<open>
  The claim as stated fails: a record that holds a UPI id keeps it through a rebuild from a
  longer history that has none, while the same history replayed into a new record gives none.
\<close>

theorem rebuild_keeps_old_findings_counterexample:
  "turn_count after_paid < length chat \<and>
   run remdups ''s'' Map.empty [paid] ''s'' = Some after_paid \<and>
   upiIds (extracted_intelligence after_paid) = [''a@ybl''] \<and>
   upiIds (extracted_intelligence (state_of
     (get_or_create_session remdups (run remdups ''s'' Map.empty [paid]) ''s'' ''elderly_uncle'' chat)))
     = [''a@ybl''] \<and>
   upiIds (extracted_intelligence (state_of
     (get_or_create_session remdups Map.empty ''s'' ''elderly_uncle'' chat))) = []"
  unfolding rebuilt_after_paid rebuilt_fresh
  using paid_store by (simp add: after_paid_def chat_def init_def)



text \<open>
  Claim C4.  Over every sequence of turns of a session, with or without a history rebuild, and
  for every kind, the merged set after a longer sequence of turns includes the merged set
  after each of its prefixes (for the session itself and for every other session of the
  store): no merged set ever shrinks.
\<close>

theorem intelligence_grows_monotonically:
  "merged_of (run so sid store ts) x k \<subseteq> merged_of (run so sid store (ts @ us)) x k"
  unfolding run_append by (rule run_grows)

theorem intelligence_grows_monotonically_witness:
  "merged_of (run remdups ''s'' Map.empty [turn1]) ''s'' BankAccount = {''1234567890123''} \<and>
   merged_of (run remdups ''s'' Map.empty ([turn1] @ [turn2])) ''s'' BankAccount = {''1234567890123''} \<and>
   merged_of (run remdups ''s'' Map.empty [turn1]) ''s'' UpiId = {} \<and>
   merged_of (run remdups ''s'' Map.empty ([turn1] @ [turn2])) ''s'' UpiId = {''merchant@ybl''} \<and>
   merged_of (run remdups ''s'' Map.empty [turn1]) ''s'' BankAccount
     \<subseteq> merged_of (run remdups ''s'' Map.empty ([turn1] @ [turn2])) ''s'' BankAccount"
proof -
  have a: "merged_of (run remdups ''s'' Map.empty [turn1]) ''s'' BankAccount = {''1234567890123''}"
    "merged_of (run remdups ''s'' Map.empty [turn1]) ''s'' UpiId = {}"
    unfolding merged_of_def e2e_held_1 by simp_all
  have "[turn1] @ [turn2] = [turn1, turn2]" by simp
  then have b: "merged_of (run remdups ''s'' Map.empty ([turn1] @ [turn2])) ''s'' BankAccount = {''1234567890123''}"
    "merged_of (run remdups ''s'' Map.empty ([turn1] @ [turn2])) ''s'' UpiId = {''merchant@ybl''}"
    unfolding merged_of_def by (simp_all only: e2e_held_2) simp_all
  from a b intelligence_grows_monotonically[where so=remdups and sid="''s''" and store=Map.empty
      and ts="[turn1]" and x="''s''" and k=BankAccount and us="[turn2]"]
  show ?thesis by (intro conjI)
qed

text \<open>
  Claim C5.  For a record of the store whose turn count is the length of its turn sequence, a
  supplied history no longer than the turn count is ignored: the turn returns the same
  result, store included, as the turn with no history.
\<close>

theorem stale_history_ignored:
  assumes "store sid = Some st"
    and "turn_count st = length (messages st)"
    and "length h \<le> turn_count st"
  shows "process_scam_message so w store m sid (Some h) p =
         process_scam_message so w store m sid None p"
proof -
  from assms have "length h \<le> length (messages (lookup_or_new store sid p))"
    by (simp add: lookup_or_new_def)
  from no_rebuild_short[OF this] show ?thesis by (simp add: process_scam_message_def)
qed

theorem stale_history_ignored_witness:
  "run remdups ''s'' Map.empty [paid] ''s'' = Some after_paid \<and>
   turn_count after_paid = length (messages after_paid) \<and>
   length (take 2 chat) \<le> turn_count after_paid \<and>
   process_scam_message remdups calm (run remdups ''s'' Map.empty [paid]) ''yo'' ''s''
     (Some (take 2 chat)) ''elderly_uncle'' =
   process_scam_message remdups calm (run remdups ''s'' Map.empty [paid]) ''yo'' ''s''
     None ''elderly_uncle''"
proof -
  have a: "turn_count after_paid = length (messages after_paid)" by (simp add: after_paid_def)
  have b: "length (take 2 chat) \<le> turn_count after_paid" by (simp add: after_paid_def chat_def)
  note n = stale_history_ignored[where store="run remdups ''s'' Map.empty [paid]" and sid="''s''"
      and st=after_paid and h="take 2 chat" and so=remdups and w=calm and m="''yo''"
      and p="''elderly_uncle''", OF paid_store a b]
  from n paid_store a b show ?thesis by (intro conjI)
qed

text \<open>
  Claim C6, as amended.  \<open>detect_scam\<close> is called on a turn exactly when \<open>scam_detected\<close> is
  false when the turn arrives (on every turn until a verdict is positive, not on the first turn
  only); once \<open>scam_detected\<close> is true the turn leaves it true and leaves \<open>scam_type\<close> as it
  is, and it stays true over every sequence of turns.
\<close>

theorem classification_latch:
  "(\<exists>st'. store_after (process_scam_message so w store m sid ch p) sid = Some st' \<and>
      classified (process_scam_message so w store m sid ch p) = (\<not> scam_detected (lookup_or_new store sid p)) \<and>
      (scam_detected (lookup_or_new store sid p) \<longrightarrow>
         scam_detected st' \<and> scam_type st' = scam_type (lookup_or_new store sid p)) \<and>
      (\<not> scam_detected (lookup_or_new store sid p) \<longrightarrow> scam_detected st' = fst (detect_scam w m))) \<and>
   ((\<exists>st. store sid = Some st \<and> scam_detected st) \<longrightarrow>
      (\<exists>st'. run so sid store ts sid = Some st' \<and> scam_detected st'))"
  using step_scam[of so w store m sid ch p] classified_iff[of so w store m sid ch p] run_scam[of store sid _ so ts]
  by auto

theorem classification_latch_witness:
  "scam_detected (lookup_or_new (run remdups ''s'' Map.empty [paid]) ''s'' ''elderly_uncle'') \<and>
   (\<exists>st'. store_after (process_scam_message remdups wary (run remdups ''s'' Map.empty [paid]) ''yo''
             ''s'' None ''elderly_uncle'') ''s'' = Some st' \<and>
      classified (process_scam_message remdups wary (run remdups ''s'' Map.empty [paid]) ''yo''
             ''s'' None ''elderly_uncle'') = False \<and>
      scam_detected st' \<and> scam_type st' = Some ''scam'') \<and>
   \<not> scam_detected (lookup_or_new Map.empty ''s'' ''elderly_uncle'') \<and>
   classified (process_scam_message remdups wary Map.empty ''hi'' ''s'' None ''elderly_uncle'') \<and>
   (\<exists>st'. run remdups ''s'' (run remdups ''s'' Map.empty [paid]) [greet] ''s'' = Some st' \<and> scam_detected st')"
proof -
  let ?store = "run remdups ''s'' Map.empty [paid]"
  have l: "lookup_or_new ?store ''s'' ''elderly_uncle'' = after_paid"
    unfolding lookup_or_new_def paid_store by simp
  have s: "scam_detected after_paid" "scam_type after_paid = Some ''scam''" by (simp_all add: after_paid_def)
  have n: "\<not> scam_detected (lookup_or_new Map.empty ''s'' ''elderly_uncle'')"
    by (simp add: lookup_or_new_def init_def)
  note a = classification_latch[where so=remdups and w=wary and store="?store" and m="''yo''"
      and sid="''s''" and ch=None and p="''elderly_uncle''" and ts="[greet]"]
  note b = classification_latch[where so=remdups and w=wary and store=Map.empty and m="''hi''"
      and sid="''s''" and ch=None and p="''elderly_uncle''" and ts="[]"]
  from a l s have 1: "\<exists>st'. store_after (process_scam_message remdups wary ?store ''yo''
             ''s'' None ''elderly_uncle'') ''s'' = Some st' \<and>
      classified (process_scam_message remdups wary ?store ''yo''
             ''s'' None ''elderly_uncle'') = False \<and>
      scam_detected st' \<and> scam_type st' = Some ''scam''" by (simp only: l) auto
  from b n have 2: "classified (process_scam_message remdups wary Map.empty ''hi'' ''s'' None ''elderly_uncle'')"
    by blast
  from a paid_store s have 3: "\<exists>st'. run remdups ''s'' ?store [greet] ''s'' = Some st' \<and> scam_detected st'"
    by blast
  have 0: "scam_detected (lookup_or_new ?store ''s'' ''elderly_uncle'')" using l s by simp
  from 0 1 n 2 3 show ?thesis by blast
qed

text \<open>
  The claim as stated fails: after a first turn that the classifier calls no scam, the second
  turn of the session calls the classifier again.
\<close>

theorem classifier_called_again_counterexample:
  "run remdups ''s'' Map.empty [greet] ''s'' = Some after_hi \<and>
   turn_count after_hi = 2 \<and>
   classified (process_scam_message remdups wary Map.empty ''hi'' ''s'' None ''elderly_uncle'') \<and>
   classified (process_scam_message remdups wary (run remdups ''s'' Map.empty [greet]) ''yo'' ''s'' None
     ''elderly_uncle'')"
proof -
  have 1: "classified (process_scam_message remdups wary Map.empty ''hi'' ''s'' None ''elderly_uncle'')"
    unfolding classified_iff by (simp add: lookup_or_new_def init_def)
  have 2: "classified (process_scam_message remdups wary (run remdups ''s'' Map.empty [greet]) ''yo'' ''s'' None
     ''elderly_uncle'')"
    unfolding classified_iff lookup_or_new_def hi_store by (simp add: after_hi_def)
  have 3: "turn_count after_hi = 2" by (simp add: after_hi_def)
  from hi_store 3 1 2 show ?thesis by (intro conjI)
qed

text \<open>
  Claim C7.  \<open>extract_intelligence\<close> raises on no value, a string or not; on the empty string
  and on a value that is not a string its result has every list empty and \<open>has_intelligence\<close>
  false; and on every value two runs, whatever order \<open>list(set(...))\<close> takes in each, return
  the same set for each kind and the same \<open>has_intelligence\<close>.
\<close>

theorem extract_intelligence_total_deterministic:
  "(\<exists>r. extract_intelligence so v = Inr r) \<and>
   ((\<forall>t. v = PyStr t \<longrightarrow> t = []) \<longrightarrow>
      extract_intelligence so v =
        Inr \<lparr>bank_accounts = [], upi_ids = [], phone_numbers = [], phishing_links = [],
             emails = [], ifsc_codes = [], has_intelligence = False\<rparr>) \<and>
   (set_order so \<and> set_order so' \<longrightarrow>
      (\<exists>r r'. extract_intelligence so v = Inr r \<and> extract_intelligence so' v = Inr r' \<and>
         set (bank_accounts r) = set (bank_accounts r') \<and>
         set (upi_ids r) = set (upi_ids r') \<and>
         set (phone_numbers r) = set (phone_numbers r') \<and>
         set (phishing_links r) = set (phishing_links r') \<and>
         set (emails r) = set (emails r') \<and>
         set (ifsc_codes r) = set (ifsc_codes r') \<and>
         has_intelligence r = has_intelligence r'))"
proof (intro conjI impI)
  show "\<exists>r. extract_intelligence so v = Inr r" by (rule extract_intelligence_total)
next
  assume "\<forall>t. v = PyStr t \<longrightarrow> t = []"
  then show "extract_intelligence so v =
        Inr \<lparr>bank_accounts = [], upi_ids = [], phone_numbers = [], phishing_links = [],
             emails = [], ifsc_codes = [], has_intelligence = False\<rparr>"
    using extract_intelligence_falsy[of v so] by (simp add: no_intelligence_def)
next
  assume o: "set_order so \<and> set_order so'"
  show "\<exists>r r'. extract_intelligence so v = Inr r \<and> extract_intelligence so' v = Inr r' \<and>
         set (bank_accounts r) = set (bank_accounts r') \<and>
         set (upi_ids r) = set (upi_ids r') \<and>
         set (phone_numbers r) = set (phone_numbers r') \<and>
         set (phishing_links r) = set (phishing_links r') \<and>
         set (emails r) = set (emails r') \<and>
         set (ifsc_codes r) = set (ifsc_codes r') \<and>
         has_intelligence r = has_intelligence r'"
  proof (cases "\<exists>t. v = PyStr t")
    case True
    then obtain t where v: "v = PyStr t" by blast
    from o have a: "set_order so" "set_order so'" by auto
    show ?thesis unfolding v extract_intelligence_str
      using intel_sets[OF a, of t] intel_has[OF a, of t] by blast
  next
    case False
    then have "\<forall>t. v = PyStr t \<longrightarrow> t = []" by blast
    then show ?thesis using extract_intelligence_falsy by auto
  qed
qed

theorem extract_intelligence_total_deterministic_witness:
  "extract_intelligence remdups (PyInt 7) =
     Inr \<lparr>bank_accounts = [], upi_ids = [], phone_numbers = [], phishing_links = [],
          emails = [], ifsc_codes = [], has_intelligence = False\<rparr> \<and>
   extract_intelligence remdups (PyStr []) =
     Inr \<lparr>bank_accounts = [], upi_ids = [], phone_numbers = [], phishing_links = [],
          emails = [], ifsc_codes = [], has_intelligence = False\<rparr> \<and>
   set_order remdups \<and> set_order rev_order \<and>
   extract_upi_ids remdups ''Pay a@ybl or b@ybl'' = Inr [''a@ybl'', ''b@ybl''] \<and>
   extract_upi_ids rev_order ''Pay a@ybl or b@ybl'' = Inr [''b@ybl'', ''a@ybl''] \<and>
   (\<exists>r r'. extract_intelligence remdups (PyStr ''Pay a@ybl or b@ybl'') = Inr r \<and>
      extract_intelligence rev_order (PyStr ''Pay a@ybl or b@ybl'') = Inr r' \<and>
      set (bank_accounts r) = set (bank_accounts r') \<and>
      set (upi_ids r) = set (upi_ids r') \<and>
      set (phone_numbers r) = set (phone_numbers r') \<and>
      set (phishing_links r) = set (phishing_links r') \<and>
      set (emails r) = set (emails r') \<and>
      set (ifsc_codes r) = set (ifsc_codes r') \<and>
      has_intelligence r = has_intelligence r')"
proof -
  note a = extract_intelligence_total_deterministic[of remdups "PyInt 7" remdups]
  note b = extract_intelligence_total_deterministic[of remdups "PyStr []" remdups]
  note c = extract_intelligence_total_deterministic[of remdups "PyStr ''Pay a@ybl or b@ybl''" rev_order]
  have u1: "extract_upi_ids remdups ''Pay a@ybl or b@ybl'' = Inr [''a@ybl'', ''b@ybl'']"
    by code_simp
  have u2: "extract_upi_ids rev_order ''Pay a@ybl or b@ybl'' = Inr [''b@ybl'', ''a@ybl'']"
    by code_simp
  from a have 1: "extract_intelligence remdups (PyInt 7) =
     Inr \<lparr>bank_accounts = [], upi_ids = [], phone_numbers = [], phishing_links = [],
          emails = [], ifsc_codes = [], has_intelligence = False\<rparr>" by simp
  from b have 2: "extract_intelligence remdups (PyStr []) =
     Inr \<lparr>bank_accounts = [], upi_ids = [], phone_numbers = [], phishing_links = [],
          emails = [], ifsc_codes = [], has_intelligence = False\<rparr>" by simp
  from c set_order_remdups set_order_rev have 3: "\<exists>r r'. extract_intelligence remdups (PyStr ''Pay a@ybl or b@ybl'') = Inr r \<and>
      extract_intelligence rev_order (PyStr ''Pay a@ybl or b@ybl'') = Inr r' \<and>
      set (bank_accounts r) = set (bank_accounts r') \<and>
      set (upi_ids r) = set (upi_ids r') \<and>
      set (phone_numbers r) = set (phone_numbers r') \<and>
      set (phishing_links r) = set (phishing_links r') \<and>
      set (emails r) = set (emails r') \<and>
      set (ifsc_codes r) = set (ifsc_codes r') \<and>
      has_intelligence r = has_intelligence r'" by blast
  from 1 2 3 u1 u2 set_order_remdups set_order_rev show ?thesis by (intro conjI)
qed

text \<open>
  Claim C8.  On the text \<open>9876543210\<close> the extraction returns the literal among the phone
  numbers and not among the bank accounts; and on every text no string returned by
  \<open>extract_bank_accounts\<close> has exactly ten characters with a first character among 6, 7, 8, 9.
\<close>

theorem phone_literal_excluded_from_bank_accounts:
  assumes "set_order so"
  shows "(\<exists>r. extract_intelligence so (PyStr ''9876543210'') = Inr r \<and>
            ''9876543210'' \<in> set (phone_numbers r) \<and> ''9876543210'' \<notin> set (bank_accounts r)) \<and>
         (\<forall>m \<in> set (extract_bank_accounts so t).
            \<not> (length m = 10 \<and> (\<exists>c cs. m = c # cs \<and> c \<in> set ''6789'')))"
proof
  have p: "concat (map normalize_phone (findall False PHONE_PATTERN ''9876543210'')) = [''9876543210'']"
    by code_simp
  have b: "filter (\<lambda>m. \<not> looks_like_phone m \<and> \<not> length m < 9)
                (findall False BANK_ACCOUNT_PATTERN ''9876543210'') = []"
    by code_simp
  from assms p b show "\<exists>r. extract_intelligence so (PyStr ''9876543210'') = Inr r \<and>
            ''9876543210'' \<in> set (phone_numbers r) \<and> ''9876543210'' \<notin> set (bank_accounts r)"
    unfolding extract_intelligence_str
    by (simp add: intel_def extract_phone_numbers_def extract_bank_accounts_def set_order_set)
next
  show "\<forall>m \<in> set (extract_bank_accounts so t).
            \<not> (length m = 10 \<and> (\<exists>c cs. m = c # cs \<and> c \<in> set ''6789''))"
    using assms
    by (auto simp: extract_bank_accounts_def set_order_set looks_like_phone_iff)
qed

theorem phone_literal_excluded_from_bank_accounts_witness:
  "set_order remdups \<and>
   (\<exists>r. extract_intelligence remdups (PyStr ''9876543210'') = Inr r \<and>
      ''9876543210'' \<in> set (phone_numbers r) \<and> ''9876543210'' \<notin> set (bank_accounts r)) \<and>
   findall False BANK_ACCOUNT_PATTERN ''call 9876543210 acct 1234567890123'' =
      [''9876543210'', ''1234567890123''] \<and>
   ''9876543210'' \<notin> set (extract_bank_accounts remdups ''call 9876543210 acct 1234567890123'')"
proof -
  note n = phone_literal_excluded_from_bank_accounts[OF set_order_remdups,
      of "''call 9876543210 acct 1234567890123''"]
  have f: "findall False BANK_ACCOUNT_PATTERN ''call 9876543210 acct 1234567890123'' =
      [''9876543210'', ''1234567890123'']" by code_simp
  have "''9876543210'' \<notin> set (extract_bank_accounts remdups ''call 9876543210 acct 1234567890123'')"
  proof
    assume "''9876543210'' \<in> set (extract_bank_accounts remdups ''call 9876543210 acct 1234567890123'')"
    with n have "\<not> (length ''9876543210'' = 10 \<and> (\<exists>c cs. ''9876543210'' = c # cs \<and> c \<in> set ''6789''))"
      by blast
    then show False by simp
  qed
  with n f set_order_remdups show ?thesis by blast
qed



end
